theory Spec2Isabelle
  imports Main
begin

section \<open>Data model of \<open>replay/models/implicit_wrap.py\<close>\<close>

text \<open>
  A Spark or pandas relation is a list of rows; Spark fixes no row order, so the
  properties below speak of sets, counts and per-user blocks of rows only.
  \<open>user_idx\<close> and \<open>item_idx\<close> are Python integers. The relevance type \<open>'r\<close> is
  kept abstract (the wrapper only carries relevance values around); it needs a zero for
  the implicit entries of the sparse matrix and an addition for the builder's reducer.
\<close>

type_synonym 'r interaction = "int \<times> int \<times> 'r"
type_synonym 'r row = "int \<Rightarrow> 'r"

definition user_idx :: "'r interaction \<Rightarrow> int" where
  "user_idx x = fst x"

definition item_idx :: "'r interaction \<Rightarrow> int" where
  "item_idx x = fst (snd x)"

definition relevance :: "'r interaction \<Rightarrow> 'r" where
  "relevance x = snd (snd x)"

datatype error = EmptyLogError | IndexError | TypeError | ValueError | ModelError string

text \<open>
  A scipy CSR matrix: its shape and its entries. Row \<open>u\<close> is the user with
  \<open>user_idx = u\<close>, column \<open>i\<close> the item with \<open>item_idx = i\<close>; \<open>data m u i\<close> is the
  entry, zero where nothing is stored.
\<close>

record 'r csr_matrix =
  n_rows :: nat
  n_cols :: nat
  data :: "int \<Rightarrow> 'r row"

text \<open>
  The wrapped \<open>implicit\<close> model is the constructor argument \<open>model\<close>: an object of an
  external library. Its state is a value of an arbitrary type \<open>'m\<close>, its methods are the
  fields of a method table. \<open>recommend\<close> is called in two shapes by the wrapper: with one
  user id, one matrix row and the positional \<open>filter_items\<close> list (\<open>_predict\<close>), and with
  a list of user ids, their rows and the keyword \<open>items\<close> (\<open>_predict_pairs\<close>); the two
  shapes are two fields. Every method may raise. \<open>recommend\<close> is taken to read the model
  only, and \<open>fit\<close> to receive the matrix by value.
\<close>

record ('m, 'r) factor_model =
  fit :: "'m \<Rightarrow> 'r csr_matrix \<Rightarrow> error + 'm"
  recommend :: "'m \<Rightarrow> int \<Rightarrow> 'r row \<Rightarrow> int \<Rightarrow> bool \<Rightarrow> int list
                  \<Rightarrow> error + (int list \<times> 'r list)"
  recommend_items :: "'m \<Rightarrow> int list \<Rightarrow> 'r row list \<Rightarrow> int \<Rightarrow> bool \<Rightarrow> int list
                  \<Rightarrow> error + (int list list \<times> 'r list list)"

text \<open>
  The wrapper object: the wrapped model and \<open>csr_log\<close>, which is \<open>None\<close> or a reference
  to a matrix object. Matrix objects live in a store (a list, the reference being the
  position), so that replacing the cached matrix by a new object and changing the old
  object in place are different things. The calls below only ever store the position of
  an object they have just added, so a reference never points outside the store; \<open>deref\<close>
  answers \<open>None\<close> there.
\<close>

record 'm implicit_wrap =
  model :: 'm
  csr_log :: "nat option"

type_synonym 'r store = "'r csr_matrix list"

definition deref :: "'r store \<Rightarrow> nat \<Rightarrow> 'r csr_matrix option" where
  "deref h p = (if p < length h then Some (h ! p) else None)"

section \<open>Library calls used by the wrapper\<close>

text \<open>
  Modelled from the spec: \<open>replay.utils.to_csr\<close> belongs to this repository but is not
  among the sources. Section 4.1 of the specification: the builder fails with
  \<open>EmptyLogError\<close> on a log without interactions, duplicate (user, item) pairs are
  aggregated by the default reducer (sum), and pairs without interaction are implicitly
  zero. The wrapper subscripts the result by \<open>user_idx\<close> itself
  (\<open>user_item_data[user]\<close>, \<open>user_plays_pred[users]\<close>), so the row index of a user is
  its \<open>user_idx\<close> and the column index of an item its \<open>item_idx\<close>. The matrix has the
  rows and columns that the largest indices of the log need, and an index below zero
  has no place in it (scipy's constructor raises \<open>ValueError\<close>).
\<close>

definition entry :: "('r::{zero,plus}) interaction list \<Rightarrow> int \<Rightarrow> int \<Rightarrow> 'r" where
  "entry log u i =
     foldl (+) 0 (map relevance (filter (\<lambda>x. user_idx x = u \<and> item_idx x = i) log))"

definition max_idx :: "int list \<Rightarrow> int" where
  "max_idx xs = foldr max xs 0"

definition csr_of :: "('r::{zero,plus}) interaction list \<Rightarrow> 'r csr_matrix" where
  "csr_of log =
     \<lparr>n_rows = nat (max_idx (map user_idx log) + 1),
      n_cols = nat (max_idx (map item_idx log) + 1),
      data = entry log\<rparr>"

definition to_csr :: "('r::{zero,plus}) interaction list \<Rightarrow> error + 'r csr_matrix" where
  "to_csr log =
     (if log = [] then Inl EmptyLogError
      else if list_ex (\<lambda>x. user_idx x < 0 \<or> item_idx x < 0) log then Inl ValueError
      else Inr (csr_of log))"

text \<open>
  The subscript \<open>m[i]\<close> of a scipy CSR matrix with an integer: the row \<open>i\<close>; a negative
  \<open>i\<close> counts from the last row; \<open>IndexError\<close> outside \<open>-n_rows \<le> i < n_rows\<close>. The
  subscript \<open>m[users]\<close> with a list selects the rows one by one in the same way.
\<close>

definition csr_getitem :: "'r csr_matrix \<Rightarrow> int \<Rightarrow> error + 'r row" where
  "csr_getitem m i =
     (let n = int (n_rows m) in
      if i < - n \<or> n \<le> i then Inl IndexError
      else Inr (data m (if i < 0 then i + n else i)))"

fun csr_getitems :: "'r csr_matrix \<Rightarrow> int list \<Rightarrow> error + 'r row list" where
  "csr_getitems m [] = Inr []"
| "csr_getitems m (i # js) =
     (case csr_getitem m i of
        Inl e \<Rightarrow> Inl e
      | Inr r \<Rightarrow> (case csr_getitems m js of Inl e \<Rightarrow> Inl e | Inr rs \<Rightarrow> Inr (r # rs)))"

text \<open>
  \<open>pd.DataFrame({"user_idx": .., "item_idx": .., "relevance": ..})\<close>: pandas raises
  \<open>ValueError\<close> unless all columns have the same length.
\<close>

definition pd_DataFrame :: "int list \<Rightarrow> int list \<Rightarrow> 'r list \<Rightarrow> error + 'r interaction list" where
  "pd_DataFrame us ids rel =
     (if length us = length ids \<and> length ids = length rel
      then Inr (zip us (zip ids rel)) else Inl ValueError)"

text \<open>
  \<open>groupby("user_idx").applyInPandas(f, schema)\<close>: \<open>f\<close> runs once per distinct key, the
  results are concatenated, and a failure of one group fails the whole job. Spark is lazy;
  the failure is attributed here to the call that builds the relation.
\<close>

fun applyInPandas :: "('k \<Rightarrow> error + 'a list) \<Rightarrow> 'k list \<Rightarrow> error + 'a list" where
  "applyInPandas f [] = Inr []"
| "applyInPandas f (g # gs) =
     (case f g of
        Inl e \<Rightarrow> Inl e
      | Inr rows \<Rightarrow>
          (case applyInPandas f gs of Inl e \<Rightarrow> Inl e | Inr rest \<Rightarrow> Inr (rows @ rest)))"

text \<open>
  \<open>np.stack([user_grid, item_grid, rel], axis=2).reshape(-1, 3)\<close>: the three arrays must
  have one shape, otherwise numpy raises \<open>ValueError\<close>; the result lists the triples row
  by row. An array is a list of rows here, its shape the number of rows and the length
  that all rows share.

  Stacking the 64-bit integer ids with the model's floating-point scores makes them
  64-bit floats,
  and \<open>astype\<close> (lines 120 and 121) casts them back to \<open>int64\<close>. \<open>float64_of_int\<close> is the
  integer value of the float nearest to a 64-bit integer (53 significant bits, ties to
  even); the cast back is the identity unless the float has left the \<open>int64\<close> range, where
  the result is the one numpy gives on x86-64.
\<close>

definition float64_of_int :: "int \<Rightarrow> int" where
  "float64_of_int x =
     (let a = \<bar>x\<bar>;
          e = length (filter (\<lambda>j. 2 ^ (53 + j) \<le> a) [0..<11]);
          q = a div 2 ^ e;
          r = a mod 2 ^ e;
          q' = (if 2 ^ e < 2 * r \<or> (2 ^ e = 2 * r \<and> odd q) then q + 1 else q)
      in sgn x * (q' * 2 ^ e))"

definition astype_int64 :: "int \<Rightarrow> int" where
  "astype_int64 v = (if - (2 ^ 63) \<le> v \<and> v < 2 ^ 63 then v else - (2 ^ 63))"

definition np_id :: "int \<Rightarrow> int" where
  "np_id x = astype_int64 (float64_of_int x)"

definition has_shape :: "nat \<Rightarrow> nat \<Rightarrow> 'a list list \<Rightarrow> bool" where
  "has_shape n m g = (length g = n \<and> list_all (\<lambda>r. length r = m) g)"

definition np_stack :: "int list list \<Rightarrow> int list list \<Rightarrow> 'r list list \<Rightarrow> error + 'r interaction list" where
  "np_stack user_grid item_grid rel =
     (let n = length user_grid; m = (case user_grid of [] \<Rightarrow> 0 | r # _ \<Rightarrow> length r) in
      if has_shape n m user_grid \<and> has_shape n m item_grid \<and> has_shape n m rel
      then Inr (concat (map (\<lambda>(us, is, rs). zip (map np_id us) (zip (map np_id is) rs))
                            (zip user_grid (zip item_grid rel))))
      else Inl ValueError)"

section \<open>The wrapper\<close>

definition ImplicitWrap_init :: "'m \<Rightarrow> 'm implicit_wrap" where
  "ImplicitWrap_init mdl = \<lparr>model = mdl, csr_log = None\<rparr>"

text \<open>\<open>_load_model\<close>: \<open>self.model = joblib.load(path)\<close>; the argument is what \<open>joblib.load\<close> gives.\<close>

definition ImplicitWrap_load_model ::
  "error + 'm \<Rightarrow> 'm implicit_wrap \<Rightarrow> error option \<times> 'm implicit_wrap" where
  "ImplicitWrap_load_model loaded w =
     (case loaded of Inl e \<Rightarrow> (Some e, w) | Inr mdl \<Rightarrow> (None, w\<lparr>model := mdl\<rparr>))"

text \<open>
  \<open>_fit\<close>: \<open>matrix = to_csr(log); self.csr_log = matrix; self.model.fit(matrix)\<close>. The new
  matrix is a new object of the store. When \<open>model.fit\<close> raises, the assignment to
  \<open>csr_log\<close> has already happened.
\<close>

definition ImplicitWrap_fit ::
  "('m, 'r::{zero,plus}) factor_model \<Rightarrow> 'r interaction list
     \<Rightarrow> 'r store \<times> 'm implicit_wrap \<Rightarrow> error option \<times> 'r store \<times> 'm implicit_wrap" where
  "ImplicitWrap_fit M log s =
     (case s of (h, w) \<Rightarrow>
       (case to_csr log of
          Inl e \<Rightarrow> (Some e, h, w)
        | Inr matrix \<Rightarrow>
            (let h' = h @ [matrix]; w' = w\<lparr>csr_log := Some (length h)\<rparr> in
             case fit M (model w') matrix of
               Inl e \<Rightarrow> (Some e, h', w')
             | Inr mdl \<Rightarrow> (None, h', w'\<lparr>model := mdl\<rparr>))))"

text \<open>
  \<open>items_to_drop\<close>: \<open>log.select("item_idx").subtract(items)\<close>; Spark's \<open>subtract\<close> is
  \<open>EXCEPT DISTINCT\<close>.
\<close>

definition items_to_drop :: "'r interaction list \<Rightarrow> int list \<Rightarrow> int list" where
  "items_to_drop log items = remdups (filter (\<lambda>i. i \<notin> set items) (map item_idx log))"

text \<open>
  \<open>predict_by_user\<close>, with the variables of the enclosing \<open>_predict\<close> it closes over as
  arguments. The group's key is the \<open>user\<close> read from the first row of the group. The
  subscript \<open>user_item_data[user]\<close> is evaluated before \<open>recommend\<close> is called.
\<close>

definition predict_by_user ::
  "('m, 'r) factor_model \<Rightarrow> 'm \<Rightarrow> 'r csr_matrix \<Rightarrow> int \<Rightarrow> bool \<Rightarrow> int list \<Rightarrow> int
     \<Rightarrow> error + 'r interaction list" where
  "predict_by_user M mdl user_item_data k filter_seen_items to_drop user =
     (case csr_getitem user_item_data user of
        Inl e \<Rightarrow> Inl e
      | Inr row \<Rightarrow>
          (case recommend M mdl user row k filter_seen_items to_drop of
             Inl e \<Rightarrow> Inl e
           | Inr (ids, rel) \<Rightarrow> pd_DataFrame (replicate (length ids) user) ids rel))"

definition ImplicitWrap_predict ::
  "('m, 'r::{zero,plus}) factor_model \<Rightarrow> 'm implicit_wrap \<Rightarrow> 'r interaction list \<Rightarrow> int
     \<Rightarrow> int list \<Rightarrow> int list \<Rightarrow> bool \<Rightarrow> error + 'r interaction list" where
  "ImplicitWrap_predict M w log k users items filter_seen_items =
     (let to_drop = items_to_drop log items in
      case to_csr log of
        Inl e \<Rightarrow> Inl e
      | Inr user_item_data \<Rightarrow>
          applyInPandas
            (predict_by_user M (model w) user_item_data k filter_seen_items to_drop)
            (remdups users))"

text \<open>
  \<open>_predict_pairs\<close>. A Spark relation is always truthy, so \<open>to_csr(log) if log else
  self.csr_log\<close> tests \<open>log\<close> for \<open>None\<close>. With \<open>user_plays_pred = None\<close> the subscript
  \<open>user_plays_pred[users]\<close> raises \<open>TypeError\<close> while the arguments of \<open>recommend\<close> are
  evaluated; with a matrix it raises \<open>IndexError\<close> when a user of \<open>pairs\<close> is not a row.
\<close>

definition score_grid ::
  "('m, 'r) factor_model \<Rightarrow> 'm \<Rightarrow> 'r csr_matrix \<Rightarrow> (int \<times> int) list
     \<Rightarrow> error + 'r interaction list" where
  "score_grid M mdl user_plays_pred pairs =
     (let users = remdups (map fst pairs); items = remdups (map snd pairs) in
      case csr_getitems user_plays_pred users of
        Inl e \<Rightarrow> Inl e
      | Inr rows \<Rightarrow>
          (case recommend_items M mdl users rows (int (length items)) False items of
             Inl e \<Rightarrow> Inl e
           | Inr (item_grid, rel) \<Rightarrow>
               np_stack (map (\<lambda>u. replicate (length items) u) users) item_grid rel))"

definition ImplicitWrap_predict_pairs ::
  "('m, 'r::{zero,plus}) factor_model \<Rightarrow> 'r store \<times> 'm implicit_wrap \<Rightarrow> (int \<times> int) list
     \<Rightarrow> 'r interaction list option \<Rightarrow> error + 'r interaction list" where
  "ImplicitWrap_predict_pairs M s pairs log =
     (case s of (h, w) \<Rightarrow>
       (case (case log of
                Some l \<Rightarrow> (case to_csr l of Inl e \<Rightarrow> Inl e | Inr matrix \<Rightarrow> Inr (Some matrix))
              | None \<Rightarrow> Inr (case csr_log w of None \<Rightarrow> None | Some p \<Rightarrow> deref h p)) of
          Inl e \<Rightarrow> Inl e
        | Inr None \<Rightarrow> Inl TypeError
        | Inr (Some user_plays_pred) \<Rightarrow> score_grid M (model w) user_plays_pred pairs))"

section \<open>A session of calls on one wrapper object\<close>

text \<open>
  The public calls as steps on the state (the store and the wrapper object). \<open>_predict\<close>
  and \<open>_predict_pairs\<close> contain no assignment to an attribute of \<open>self\<close>: their step
  returns the state it was given. Matrices built for one prediction call are temporary
  and are not entered into the store.
\<close>

datatype ('m, 'r) call =
    Fit "'r interaction list"
  | Predict "'r interaction list" int "int list" "int list" bool
  | PredictPairs "(int \<times> int) list" "'r interaction list option"
  | LoadModel "error + 'm"

datatype 'r outcome = Raised error | Returned "'r interaction list" | ReturnedNone

definition outcome_of :: "error + 'r interaction list \<Rightarrow> 'r outcome" where
  "outcome_of r = (case r of Inl e \<Rightarrow> Raised e | Inr rows \<Rightarrow> Returned rows)"

definition status_of :: "error option \<Rightarrow> 'r outcome" where
  "status_of r = (case r of Some e \<Rightarrow> Raised e | None \<Rightarrow> ReturnedNone)"

fun run :: "('m, 'r::{zero,plus}) factor_model \<Rightarrow> ('m, 'r) call \<Rightarrow> 'r store \<times> 'm implicit_wrap
              \<Rightarrow> 'r outcome \<times> 'r store \<times> 'm implicit_wrap" where
  "run M (Fit log) s = (case ImplicitWrap_fit M log s of (r, s') \<Rightarrow> (status_of r, s'))"
| "run M (Predict log k users items filter_seen_items) s =
     (outcome_of (ImplicitWrap_predict M (snd s) log k users items filter_seen_items), s)"
| "run M (PredictPairs pairs log) s = (outcome_of (ImplicitWrap_predict_pairs M s pairs log), s)"
| "run M (LoadModel loaded) s =
     (case ImplicitWrap_load_model loaded (snd s) of (r, w') \<Rightarrow> (status_of r, fst s, w'))"

section \<open>What the wrapper expects of the Factor Model\<close>

text \<open>
  The wrapper restricts the result only through the arguments it hands to
  \<open>model.recommend\<close>: the user's row, \<open>k\<close>, the flag and \<open>items_to_drop\<close>. The
  specification (4.2, steps 3b to 3d) states what the Factor Model does with them; each
  clause is a predicate on the method table, used as an explicit assumption. \<open>K m\<close> is
  the list of items the model in state \<open>m\<close> can score.
\<close>

definition eligible :: "int list \<Rightarrow> ('r::zero) row \<Rightarrow> bool \<Rightarrow> int list \<Rightarrow> int set" where
  "eligible known row flt filter_items =
     {i \<in> set known. i \<notin> set filter_items \<and> (flt \<longrightarrow> row i = 0)}"

definition honours_filter_items :: "('m, 'r) factor_model \<Rightarrow> bool" where
  "honours_filter_items M =
     (\<forall>m u row N flt fi ids rel.
        recommend M m u row N flt fi = Inr (ids, rel) \<longrightarrow> set ids \<inter> set fi = {})"

definition ranks_eligible :: "('m, 'r::zero) factor_model \<Rightarrow> ('m \<Rightarrow> int list) \<Rightarrow> bool" where
  "ranks_eligible M K =
     (\<forall>m u row N flt fi ids rel.
        recommend M m u row N flt fi = Inr (ids, rel) \<longrightarrow>
          distinct ids \<and> set ids \<subseteq> eligible (K m) row flt fi)"

definition at_most_N :: "('m, 'r) factor_model \<Rightarrow> bool" where
  "at_most_N M =
     (\<forall>m u row N flt fi ids rel.
        recommend M m u row N flt fi = Inr (ids, rel) \<longrightarrow> 0 < N \<longrightarrow> int (length ids) \<le> N)"

definition exhausts_eligible :: "('m, 'r::zero) factor_model \<Rightarrow> ('m \<Rightarrow> int list) \<Rightarrow> bool" where
  "exhausts_eligible M K =
     (\<forall>m u row N flt fi ids rel.
        recommend M m u row N flt fi = Inr (ids, rel) \<longrightarrow> int (length ids) < N \<longrightarrow>
          eligible (K m) row flt fi \<subseteq> set ids)"

definition never_fails :: "('m, 'r) factor_model \<Rightarrow> bool" where
  "never_fails M =
     (\<forall>m u row N flt fi. 0 < N \<longrightarrow>
        (\<exists>ids rel. recommend M m u row N flt fi = Inr (ids, rel) \<and> length ids = length rel))"

definition rejects_nonpositive :: "('m, 'r) factor_model \<Rightarrow> bool" where
  "rejects_nonpositive M =
     (\<forall>m u row N flt fi. N \<le> 0 \<longrightarrow> (\<exists>e. recommend M m u row N flt fi = Inl e))"

section \<open>A concrete model object\<close>

text \<open>
  A model object to run the wrapper on: its state is the list of items it knows and a
  score table; \<open>fit\<close> leaves it as it is. \<open>recommend\<close> drops \<open>filter_items\<close> and, when
  asked, the items with a nonzero entry in the user's row, ranks the rest by descending
  score (ties by ascending item id) and returns the first \<open>N\<close>. With \<open>items\<close> given it
  ranks those items for each user.
\<close>

type_synonym table_state = "int list \<times> (int \<Rightarrow> int \<Rightarrow> int)"

definition ranked :: "(int \<Rightarrow> int) \<Rightarrow> int list \<Rightarrow> int list" where
  "ranked sc cand = sort_key (\<lambda>i. - sc i) (sort (remdups cand))"

definition table_recommend ::
  "table_state \<Rightarrow> int \<Rightarrow> int row \<Rightarrow> int \<Rightarrow> bool \<Rightarrow> int list \<Rightarrow> error + (int list \<times> int list)" where
  "table_recommend m user row N flt filter_items =
     (let ids = take (nat N) (ranked (snd m user)
                  (filter (\<lambda>i. i \<notin> set filter_items \<and> (flt \<longrightarrow> row i = 0)) (fst m)))
      in Inr (ids, map (snd m user) ids))"

definition table_recommend_items ::
  "table_state \<Rightarrow> int list \<Rightarrow> int row list \<Rightarrow> int \<Rightarrow> bool \<Rightarrow> int list
     \<Rightarrow> error + (int list list \<times> int list list)" where
  "table_recommend_items m users rows N flt items =
     (let grid = map (\<lambda>(u, row). take (nat N) (ranked (snd m u)
                        (filter (\<lambda>i. flt \<longrightarrow> row i = 0) items))) (zip users rows)
      in Inr (grid, map (\<lambda>(u, ids). map (snd m u) ids) (zip users grid)))"

definition table_model :: "(table_state, int) factor_model" where
  "table_model = \<lparr>fit = (\<lambda>m matrix. Inr m), recommend = table_recommend,
                   recommend_items = table_recommend_items\<rparr>"

text \<open>The same model object, raising on a request for a non-positive number of items.\<close>

definition strict_recommend ::
  "table_state \<Rightarrow> int \<Rightarrow> int row \<Rightarrow> int \<Rightarrow> bool \<Rightarrow> int list \<Rightarrow> error + (int list \<times> int list)" where
  "strict_recommend m user row N flt filter_items =
     (if N \<le> 0 then Inl (ModelError ''N must be positive'')
      else table_recommend m user row N flt filter_items)"

definition strict_model :: "(table_state, int) factor_model" where
  "strict_model = \<lparr>fit = (\<lambda>m matrix. Inr m), recommend = strict_recommend,
                    recommend_items = table_recommend_items\<rparr>"

text \<open>The log of the class docstring, and a wrapper around a model that knows its items.\<close>

definition example_log :: "int interaction list" where
  "example_log = [(1, 1, 1), (1, 2, 1), (2, 2, 1), (2, 3, 1)]"

definition example_wrap :: "table_state implicit_wrap" where
  "example_wrap = ImplicitWrap_init ([1, 2, 3], \<lambda>u i. i)"

lemmas example_defs =
  example_log_def example_wrap_def ImplicitWrap_init_def table_model_def strict_model_def
  table_recommend_def strict_recommend_def table_recommend_items_def ranked_def

lemmas wrapper_defs =
  ImplicitWrap_predict_def ImplicitWrap_predict_pairs_def to_csr_def csr_of_def max_idx_def
  csr_getitem_def entry_def items_to_drop_def user_idx_def item_idx_def relevance_def
  predict_by_user_def pd_DataFrame_def score_grid_def np_stack_def has_shape_def Let_def

section \<open>Blocks of rows\<close>

lemma applyInPandas_Inr:
  "applyInPandas f gs = Inr rows \<Longrightarrow> \<forall>g \<in> set gs. \<exists>r. f g = Inr r"
  by (induction gs arbitrary: rows) (auto split: sum.splits)

lemma applyInPandas_concat:
  "applyInPandas f gs = Inr rows \<Longrightarrow> rows = concat (map (\<lambda>g. projr (f g)) gs)"
  by (induction gs arbitrary: rows) (auto split: sum.splits)

lemma applyInPandas_total:
  "\<forall>g \<in> set gs. \<exists>r. f g = Inr r \<Longrightarrow>
   applyInPandas f gs = Inr (concat (map (\<lambda>g. projr (f g)) gs))"
  by (induction gs) (auto split: sum.splits)

lemma applyInPandas_Inl:
  "applyInPandas f gs = Inl e \<Longrightarrow> \<exists>g \<in> set gs. f g = Inl e"
  by (induction gs) (auto split: sum.splits)

lemma predict_by_user_Inr:
  "predict_by_user M mdl mat k flt dr u = Inr rows \<Longrightarrow>
   \<exists>row ids rel. csr_getitem mat u = Inr row
     \<and> recommend M mdl u row k flt dr = Inr (ids, rel) \<and> length ids = length rel
     \<and> rows = zip (replicate (length ids) u) (zip ids rel)"
  by (auto simp: predict_by_user_def pd_DataFrame_def split: sum.splits if_splits)

lemma predict_by_user_key:
  "predict_by_user M mdl mat k flt dr u = Inr rows \<Longrightarrow> x \<in> set rows \<Longrightarrow> user_idx x = u"
proof -
  assume a: "predict_by_user M mdl mat k flt dr u = Inr rows" and x: "x \<in> set rows"
  from predict_by_user_Inr[OF a] obtain ids rel where
    rows: "rows = zip (replicate (length ids) u) (zip ids rel)" by blast
  from x have "(fst x, snd x) \<in> set (zip (replicate (length ids) u) (zip ids rel))"
    unfolding rows by simp
  then have "fst x \<in> set (replicate (length ids) u)"
    by (rule set_zip_leftD)
  then show ?thesis by (simp add: user_idx_def)
qed

lemma filter_concat_blocks:
  assumes "distinct gs" and "\<And>g x. g \<in> set gs \<Longrightarrow> x \<in> set (B g) \<Longrightarrow> key x = g"
  shows "filter (\<lambda>x. key x = u) (concat (map B gs)) = (if u \<in> set gs then B u else [])"
  using assms
proof (induction gs)
  case Nil
  then show ?case by simp
next
  case (Cons g gs)
  have own: "filter (\<lambda>x. key x = g) (B g) = B g"
    using Cons.prems(2) by (auto intro: filter_True)
  have other: "u \<noteq> g \<Longrightarrow> filter (\<lambda>x. key x = u) (B g) = []"
    using Cons.prems(2) by (auto simp: filter_empty_conv)
  have none: "u \<notin> set gs \<Longrightarrow> filter (\<lambda>x. key x = u) (concat (map B gs)) = []"
    using Cons.prems(2) by (auto simp: filter_empty_conv)
  have IH: "filter (\<lambda>x. key x = u) (concat (map B gs)) = (if u \<in> set gs then B u else [])"
    using Cons by simp
  show ?case
  proof (cases "u = g")
    case True
    with Cons.prems(1) have "u \<notin> set gs" by simp
    with True own none show ?thesis by simp
  next
    case False
    with other IH show ?thesis by simp
  qed
qed

lemma to_csr_Inr: "to_csr log = Inr mat \<Longrightarrow>
   mat = csr_of log \<and> log \<noteq> [] \<and> (\<forall>x \<in> set log. 0 \<le> user_idx x \<and> 0 \<le> item_idx x)"
  by (auto simp: to_csr_def list_ex_iff split: if_splits)

lemma to_csr_ok:
  "log \<noteq> [] \<Longrightarrow> \<forall>x \<in> set log. 0 \<le> user_idx x \<and> 0 \<le> item_idx x \<Longrightarrow> to_csr log = Inr (csr_of log)"
  by (auto simp: to_csr_def list_ex_iff)

lemma predict_blocks:
  assumes "ImplicitWrap_predict M w log k users items flt = Inr rows"
  shows "to_csr log = Inr (csr_of log)"
    and "\<forall>u \<in> set users. \<exists>b.
           predict_by_user M (model w) (csr_of log) k flt (items_to_drop log items) u = Inr b"
    and "rows = concat (map (\<lambda>u. projr (predict_by_user M (model w) (csr_of log) k flt
                                          (items_to_drop log items) u)) (remdups users))"
proof -
  from assms obtain mat where m: "to_csr log = Inr mat"
    by (auto simp: ImplicitWrap_predict_def Let_def split: sum.splits)
  then have mat: "mat = csr_of log" by (simp add: to_csr_Inr)
  with m show "to_csr log = Inr (csr_of log)" by simp
  from assms m mat have a: "applyInPandas
            (predict_by_user M (model w) (csr_of log) k flt (items_to_drop log items))
            (remdups users) = Inr rows"
    by (simp add: ImplicitWrap_predict_def Let_def)
  from applyInPandas_Inr[OF a] show "\<forall>u \<in> set users. \<exists>b.
           predict_by_user M (model w) (csr_of log) k flt (items_to_drop log items) u = Inr b"
    by simp
  from applyInPandas_concat[OF a] show "rows = concat (map (\<lambda>u. projr (predict_by_user M (model w) (csr_of log) k flt
                                          (items_to_drop log items) u)) (remdups users))" .
qed

lemma predict_user_block:
  assumes "ImplicitWrap_predict M w log k users items flt = Inr rows" and "u \<in> set users"
  shows "predict_by_user M (model w) (csr_of log) k flt (items_to_drop log items) u
           = Inr (filter (\<lambda>x. user_idx x = u) rows)"
proof -
  let ?f = "predict_by_user M (model w) (csr_of log) k flt (items_to_drop log items)"
  let ?B = "\<lambda>u. projr (?f u)"
  from predict_blocks[OF assms(1)]
  have ok: "\<forall>u \<in> set users. \<exists>b. ?f u = Inr b"
    and rows: "rows = concat (map ?B (remdups users))" by blast+
  have key: "\<And>g x. g \<in> set (remdups users) \<Longrightarrow> x \<in> set (?B g) \<Longrightarrow> user_idx x = g"
  proof -
    fix g x assume "g \<in> set (remdups users)" and x: "x \<in> set (?B g)"
    then obtain b where b: "?f g = Inr b"
      using ok by auto
    with x show "user_idx x = g" by (auto dest: predict_by_user_key)
  qed
  have "filter (\<lambda>x. user_idx x = u) rows = ?B u"
    unfolding rows using filter_concat_blocks[of "remdups users" ?B user_idx u] key assms(2)
    by simp
  moreover obtain b where "?f u = Inr b"
    using ok assms(2) by auto
  ultimately show ?thesis by simp
qed

lemma predict_rows_users:
  assumes "ImplicitWrap_predict M w log k users items flt = Inr rows" and "x \<in> set rows"
  shows "user_idx x \<in> set users"
proof -
  let ?f = "predict_by_user M (model w) (csr_of log) k flt (items_to_drop log items)"
  let ?B = "\<lambda>u. projr (?f u)"
  from predict_blocks[OF assms(1)]
  have ok: "\<forall>u \<in> set users. \<exists>b. ?f u = Inr b"
    and rows: "rows = concat (map ?B (remdups users))" by blast+
  from assms(2) rows obtain g where g: "g \<in> set users" "x \<in> set (?B g)" by auto
  then obtain b where "?f g = Inr b"
    using ok by auto
  with g show ?thesis by (auto dest: predict_by_user_key)
qed

text \<open>The rows of one requested user: the lookup, the call and the columns.\<close>

lemma block_call:
  assumes "ImplicitWrap_predict M w log k users items flt = Inr rows" and "u \<in> set users"
  shows "\<exists>row ids rel. csr_getitem (csr_of log) u = Inr row
           \<and> recommend M (model w) u row k flt (items_to_drop log items) = Inr (ids, rel)
           \<and> length ids = length rel
           \<and> filter (\<lambda>x. user_idx x = u) rows = zip (replicate (length ids) u) (zip ids rel)
           \<and> length (filter (\<lambda>x. user_idx x = u) rows) = length ids
           \<and> item_idx ` set (filter (\<lambda>x. user_idx x = u) rows) = set ids"
proof -
  from predict_by_user_Inr[OF predict_user_block[OF assms]] obtain row ids rel where
    look: "csr_getitem (csr_of log) u = Inr row"
    and call: "recommend M (model w) u row k flt (items_to_drop log items) = Inr (ids, rel)"
    and len: "length ids = length rel"
    and blk: "filter (\<lambda>x. user_idx x = u) rows = zip (replicate (length ids) u) (zip ids rel)"
    by blast
  have "map item_idx (zip (replicate (length ids) u) (zip ids rel)) = ids"
    using len
  proof (induction ids rel rule: list_induct2)
    case Nil
    then show ?case by simp
  next
    case (Cons i ids r rel)
    then show ?case by (simp add: item_idx_def)
  qed
  then have "item_idx ` set (filter (\<lambda>x. user_idx x = u) rows) = set ids"
    unfolding blk by (metis set_map)
  moreover have "length (filter (\<lambda>x. user_idx x = u) rows) = length ids"
    unfolding blk using len by simp
  ultimately show ?thesis using look call len blk by blast
qed

lemma predict_row_call:
  assumes "ImplicitWrap_predict M w log k users items flt = Inr rows" and "x \<in> set rows"
  shows "\<exists>row ids rel. csr_getitem (csr_of log) (user_idx x) = Inr row
           \<and> recommend M (model w) (user_idx x) row k flt (items_to_drop log items) = Inr (ids, rel)
           \<and> length ids = length rel \<and> item_idx x \<in> set ids"
proof -
  let ?u = "user_idx x"
  have u: "?u \<in> set users" by (rule predict_rows_users[OF assms])
  from block_call[OF assms(1) u] obtain row ids rel where
    look: "csr_getitem (csr_of log) ?u = Inr row"
    and call: "recommend M (model w) ?u row k flt (items_to_drop log items) = Inr (ids, rel)"
    and len: "length ids = length rel"
    and its: "item_idx ` set (filter (\<lambda>y. user_idx y = ?u) rows) = set ids"
    by blast
  from assms(2) have "x \<in> set (filter (\<lambda>y. user_idx y = ?u) rows)" by simp
  then have "item_idx x \<in> set ids" unfolding its[symmetric] by (rule imageI)
  with look call len show ?thesis by blast
qed

section \<open>Rows of the matrix\<close>

lemma max_idx_nonneg: "0 \<le> max_idx xs"
  by (induction xs) (auto simp: max_idx_def)

lemma max_idx_ge: "x \<in> set xs \<Longrightarrow> x \<le> max_idx xs"
  by (induction xs) (auto simp: max_idx_def)

lemma n_rows_csr_of_eq: "int (n_rows (csr_of log)) = max_idx (map user_idx log) + 1"
  using max_idx_nonneg[of "map user_idx log"] by (simp add: csr_of_def)

lemma csr_getitem_nonneg:
  "csr_getitem (csr_of log) u = Inr row \<Longrightarrow> 0 \<le> u \<Longrightarrow> row = entry log u"
  by (auto simp: csr_getitem_def csr_of_def Let_def split: if_splits)

lemma csr_getitem_in_range:
  "0 \<le> u \<Longrightarrow> u \<le> max_idx (map user_idx log) \<Longrightarrow> csr_getitem (csr_of log) u = Inr (entry log u)"
  using n_rows_csr_of_eq[of log] by (simp add: csr_getitem_def Let_def csr_of_def)

lemma csr_getitem_beyond:
  "max_idx (map user_idx log) < u \<Longrightarrow> csr_getitem (csr_of log) u = Inl IndexError"
  using n_rows_csr_of_eq[of log] by (simp add: csr_getitem_def Let_def)

lemma entry_absent_user:
  assumes "u \<notin> user_idx ` set log"
  shows "entry log u i = 0"
proof -
  from assms have "filter (\<lambda>x. user_idx x = u \<and> item_idx x = i) log = []"
    by (auto simp: filter_empty_conv)
  then show ?thesis by (simp add: entry_def)
qed

lemma entry_negative_user:
  assumes "to_csr log = Inr mat" and "u < 0"
  shows "entry log u i = 0"
proof -
  from to_csr_Inr[OF assms(1)] assms(2) have "u \<notin> user_idx ` set log" by auto
  then show ?thesis by (rule entry_absent_user)
qed

lemma log_user_in_range:
  assumes "to_csr log = Inr mat" and "u \<in> user_idx ` set log"
  shows "csr_getitem (csr_of log) u = Inr (entry log u)"
proof -
  from to_csr_Inr[OF assms(1)] assms(2) have "0 \<le> u" by auto
  moreover from assms(2) have "u \<le> max_idx (map user_idx log)"
    by (intro max_idx_ge) auto
  ultimately show ?thesis by (rule csr_getitem_in_range)
qed

section \<open>The concrete model object honours the contract\<close>

lemma set_ranked: "set (ranked sc cand) = set cand"
  by (simp add: ranked_def)

lemma distinct_ranked: "distinct (ranked sc cand)"
  by (simp add: ranked_def)

lemma table_recommend_ids:
  "recommend table_model m u row N flt fi = Inr (ids, rel) \<Longrightarrow>
   ids = take (nat N) (ranked (snd m u) (filter (\<lambda>i. i \<notin> set fi \<and> (flt \<longrightarrow> row i = 0)) (fst m)))
   \<and> length rel = length ids"
  by (auto simp: table_model_def table_recommend_def Let_def)

lemma table_candidates:
  "set (filter (\<lambda>i. i \<notin> set fi \<and> (flt \<longrightarrow> row i = 0)) known) = eligible known row flt fi"
  by (auto simp: eligible_def)

lemma table_ids_eligible:
  assumes "recommend table_model m u row N flt fi = Inr (ids, rel)"
  shows "set ids \<subseteq> eligible (fst m) row flt fi"
proof -
  let ?C = "filter (\<lambda>i. i \<notin> set fi \<and> (flt \<longrightarrow> row i = 0)) (fst m)"
  from assms have "ids = take (nat N) (ranked (snd m u) ?C)"
    by (auto dest!: table_recommend_ids)
  then have "set ids \<subseteq> set (ranked (snd m u) ?C)"
    by (simp add: set_take_subset)
  also have "\<dots> = eligible (fst m) row flt fi"
    unfolding set_ranked by (rule table_candidates)
  finally show ?thesis .
qed

lemma table_honours_filter_items: "honours_filter_items table_model"
  unfolding honours_filter_items_def
proof (intro allI impI)
  fix m u and row :: "int row" and N flt fi ids rel
  assume "recommend table_model m u row N flt fi = Inr (ids, rel)"
  then have "set ids \<subseteq> eligible (fst m) row flt fi"
    by (rule table_ids_eligible)
  then show "set ids \<inter> set fi = {}" by (auto simp: eligible_def)
qed

lemma table_ranks_eligible: "ranks_eligible table_model fst"
  unfolding ranks_eligible_def
proof (intro allI impI)
  fix m u and row :: "int row" and N flt fi ids rel
  assume a: "recommend table_model m u row N flt fi = Inr (ids, rel)"
  then have "set ids \<subseteq> eligible (fst m) row flt fi"
    by (rule table_ids_eligible)
  moreover have "distinct ids"
    using a by (auto dest!: table_recommend_ids simp: distinct_ranked)
  ultimately show "distinct ids \<and> set ids \<subseteq> eligible (fst m) row flt fi" by simp
qed

lemma table_at_most_N: "at_most_N table_model"
  unfolding at_most_N_def by (auto dest!: table_recommend_ids)

lemma table_exhausts_eligible: "exhausts_eligible table_model fst"
  unfolding exhausts_eligible_def
proof (intro allI impI)
  fix m u and row :: "int row" and N flt fi ids rel
  assume a: "recommend table_model m u row N flt fi = Inr (ids, rel)" and short: "int (length ids) < N"
  let ?R = "ranked (snd m u) (filter (\<lambda>i. i \<notin> set fi \<and> (flt \<longrightarrow> row i = 0)) (fst m))"
  from a have ids: "ids = take (nat N) ?R" by (auto dest!: table_recommend_ids)
  with short have "length ?R \<le> nat N" by (simp add: min_def split: if_splits)
  with ids have "ids = ?R" by simp
  then have "set ids = eligible (fst m) row flt fi"
    by (simp add: set_ranked table_candidates del: set_filter)
  then show "eligible (fst m) row flt fi \<subseteq> set ids" by simp
qed

lemma table_never_fails: "never_fails table_model"
  unfolding never_fails_def by (simp add: table_model_def table_recommend_def Let_def)

lemma strict_rejects_nonpositive: "rejects_nonpositive strict_model"
  unfolding rejects_nonpositive_def by (simp add: strict_model_def strict_recommend_def)

section \<open>Ids through \<open>np.stack\<close>\<close>

lemma float64_of_int_small: "\<bar>x\<bar> < 2 ^ 53 \<Longrightarrow> float64_of_int x = x"
proof -
  assume a: "\<bar>x\<bar> < 2 ^ 53"
  have "filter (\<lambda>j. 2 ^ (53 + j) \<le> \<bar>x\<bar>) [0..<11] = []"
  proof -
    have "\<not> (2::int) ^ (53 + j) \<le> \<bar>x\<bar>" for j
    proof -
      have "(2::int) ^ 53 \<le> 2 ^ (53 + j)" by (intro power_increasing) simp_all
      with a show ?thesis by linarith
    qed
    then show ?thesis by (simp add: filter_empty_conv)
  qed
  then show ?thesis by (simp add: float64_of_int_def Let_def mult_sgn_abs)
qed

lemma np_id_small: "\<bar>x\<bar> < 2 ^ 53 \<Longrightarrow> np_id x = x"
proof -
  assume a: "\<bar>x\<bar> < 2 ^ 53"
  have "(2::int) ^ 53 \<le> 2 ^ 63" by (intro power_increasing) simp_all
  with a have "- (2 ^ 63) \<le> x \<and> x < 2 ^ 63" by linarith
  with a show ?thesis by (simp add: np_id_def astype_int64_def float64_of_int_small)
qed

section \<open>Size of the grid\<close>

lemma stack_lengths:
  assumes "length ig = length ug" and "length rl = length ug"
    and "list_all (\<lambda>r. length r = m) ug" and "list_all (\<lambda>r. length r = m) ig"
    and "list_all (\<lambda>r. length r = m) rl"
  shows "map fst (concat (map (\<lambda>(us, js, rs). zip (map np_id us) (zip (map np_id js) rs))
                               (zip ug (zip ig rl)))) = map np_id (concat ug)"
  using assms
proof (induction ug arbitrary: ig rl)
  case Nil
  then show ?case by simp
next
  case (Cons us ug)
  then obtain js ig' rs rl' where s: "ig = js # ig'" "rl = rs # rl'"
    by (cases ig; cases rl) auto
  with Cons.prems have l: "length js = length us" "length rs = length us" by auto
  have "map fst (zip (map np_id us) (zip (map np_id js) rs)) = map np_id us" using l by simp
  moreover have "map fst (concat (map (\<lambda>(us, js, rs). zip (map np_id us) (zip (map np_id js) rs))
                               (zip ug (zip ig' rl')))) = map np_id (concat ug)"
    using Cons.prems s by (intro Cons.IH) auto
  ultimately show ?case using s by simp
qed

lemma length_replicate_blocks: "length (concat (map (\<lambda>u. replicate n u) us)) = length us * n"
  by (induction us) simp_all

lemma np_stack_users:
  assumes "np_stack ug ig rl = Inr rows"
  shows "map user_idx rows = map np_id (concat ug)"
proof -
  let ?m = "case ug of [] \<Rightarrow> 0 | r # _ \<Rightarrow> length r"
  from assms have sh: "has_shape (length ug) ?m ug" "has_shape (length ug) ?m ig" "has_shape (length ug) ?m rl"
    and rows: "rows = concat (map (\<lambda>(us, js, rs). zip (map np_id us) (zip (map np_id js) rs)) (zip ug (zip ig rl)))"
    by (auto simp: np_stack_def Let_def split: if_splits)
  have "map fst rows = map np_id (concat ug)"
    unfolding rows using sh by (intro stack_lengths[where m = ?m]) (auto simp: has_shape_def)
  moreover have "map user_idx rows = map fst rows" by (simp add: user_idx_def)
  ultimately show ?thesis by simp
qed

lemma score_grid_size:
  assumes "score_grid M mdl mat pairs = Inr rows"
  shows "map user_idx rows
           = map np_id (concat (map (\<lambda>u. replicate (length (remdups (map snd pairs))) u)
                                  (remdups (map fst pairs))))"
    and "length rows = length (remdups (map fst pairs)) * length (remdups (map snd pairs))"
proof -
  from assms obtain ig rl where
    "np_stack (map (\<lambda>u. replicate (length (remdups (map snd pairs))) u) (remdups (map fst pairs))) ig rl = Inr rows"
    by (auto simp: score_grid_def Let_def split: sum.splits)
  from np_stack_users[OF this] show
    u: "map user_idx rows
           = map np_id (concat (map (\<lambda>u. replicate (length (remdups (map snd pairs))) u)
                                  (remdups (map fst pairs))))" .
  have "length rows = length (map user_idx rows)" by simp
  also have "\<dots> = length (remdups (map fst pairs)) * length (remdups (map snd pairs))"
    unfolding u by (simp add: length_replicate_blocks)
  finally show "length rows = length (remdups (map fst pairs)) * length (remdups (map snd pairs))" .
qed

lemma predict_pairs_grid_size:
  assumes "ImplicitWrap_predict_pairs M s pairs log = Inr rows"
  shows "length rows = length (remdups (map fst pairs)) * length (remdups (map snd pairs))"
proof -
  from assms obtain mdl mat where "score_grid M mdl mat pairs = Inr rows"
    by (cases s) (auto simp: ImplicitWrap_predict_pairs_def split: sum.splits option.splits)
  then show ?thesis by (rule score_grid_size(2))
qed

section \<open>Pairwise scoring\<close>

lemma example_predict:
  "ImplicitWrap_predict table_model example_wrap example_log 1 [1] [1, 2, 3] True = Inr [(1, 3, 3)]"
  by (simp add: wrapper_defs example_defs)

text \<open>
  C1: \<open>_predict_pairs\<close> is to return one row per requested pair and no other. The code
  returns the grid as \<open>np.stack\<close> built it, without restricting it to \<open>pairs\<close>
  (\<open>predict_pairs_grid_size\<close>: one row per distinct user and distinct item, for every
  model). For the pairs (1, 1) and (2, 2) it returns the four rows of the grid of users
  1, 2 and items 1, 2; the pair (1, 2) was not requested.
\<close>

theorem predict_pairs_returns_whole_grid:
  "ImplicitWrap_predict_pairs table_model ([], example_wrap) [(1, 1), (2, 2)] (Some example_log)
     = Inr [(1, 2, 2), (1, 1, 1), (2, 2, 2), (2, 1, 1)]
   \<and> (1 :: int, 2 :: int) \<notin> set [(1, 1), (2, 2)]"
  by (simp add: wrapper_defs example_defs np_id_small)

section \<open>Candidate restriction\<close>

lemma items_to_drop_set: "set (items_to_drop log items) = item_idx ` set log - set items"
  by (auto simp: items_to_drop_def)

text \<open>
  C2, as amended: for a Factor Model that honours \<open>filter_items\<close>, no item of
  \<open>items_to_drop\<close>, that is no item that appears in the log and is missing from
  \<open>items\<close>, is returned for any user, whatever \<open>filter_seen_items\<close> is. A returned
  item that appears in the log is therefore a candidate; every returned item is a
  candidate when all items the model can return appear in the log or in \<open>items\<close>.
\<close>

theorem dropped_items_never_returned:
  assumes "honours_filter_items M"
    and "ImplicitWrap_predict M w log k users items flt = Inr rows"
    and "x \<in> set rows"
  shows "item_idx x \<notin> set (items_to_drop log items)
       \<and> (item_idx x \<in> item_idx ` set log \<longrightarrow> item_idx x \<in> set items)
       \<and> (\<forall>K. ranks_eligible M K \<and> set (K (model w)) \<subseteq> item_idx ` set log \<union> set items
              \<longrightarrow> item_idx x \<in> set items)"
proof -
  from predict_row_call[OF assms(2,3)] obtain row ids rel where
    call: "recommend M (model w) (user_idx x) row k flt (items_to_drop log items) = Inr (ids, rel)"
    and mem: "item_idx x \<in> set ids" by blast
  from assms(1) call have "set ids \<inter> set (items_to_drop log items) = {}"
    unfolding honours_filter_items_def by blast
  with mem have nd: "item_idx x \<notin> set (items_to_drop log items)" by blast
  then have in_log: "item_idx x \<in> item_idx ` set log \<longrightarrow> item_idx x \<in> set items"
    by (simp add: items_to_drop_set)
  have "item_idx x \<in> set items"
    if "ranks_eligible M K" and "set (K (model w)) \<subseteq> item_idx ` set log \<union> set items" for K
  proof -
    from that(1) call have "set ids \<subseteq> eligible (K (model w)) row flt (items_to_drop log items)"
      unfolding ranks_eligible_def by blast
    with mem have "item_idx x \<in> set (K (model w))" by (auto simp: eligible_def)
    with that(2) in_log show ?thesis by blast
  qed
  with nd in_log show ?thesis by blast
qed

lemma example_predict_unfiltered:
  "ImplicitWrap_predict table_model example_wrap example_log 1 [1] [1, 2] False = Inr [(1, 2, 2)]"
  by (simp add: wrapper_defs example_defs)

theorem dropped_items_never_returned_witness:
  "honours_filter_items table_model
   \<and> ImplicitWrap_predict table_model example_wrap example_log 1 [1] [1, 2] False = Inr [(1, 2, 2)]
   \<and> items_to_drop example_log [1, 2] = [3]
   \<and> item_idx (1, 2, 2 :: int) \<notin> set (items_to_drop example_log [1, 2])
   \<and> item_idx (1, 2, 2 :: int) \<in> set [1, 2]"
proof -
  have x: "(1, 2, 2) \<in> set [(1, 2, 2 :: int)]" by simp
  have d: "items_to_drop example_log [1, 2] = [3]"
    by (simp add: items_to_drop_def example_log_def item_idx_def)
  show ?thesis
    using dropped_items_never_returned[OF table_honours_filter_items example_predict_unfiltered x]
      table_honours_filter_items example_predict_unfiltered d
    by (simp add: item_idx_def)
qed

text \<open>
  C2, as stated, fails: the model knows item 3, the log of the call mentions item 1
  only, the candidates are 1 and 2. Nothing is dropped, and item 3 is returned.
\<close>

theorem candidate_set_counterexample:
  "ImplicitWrap_predict table_model example_wrap [(1, 1, 1)] 1 [1] [1, 2] True = Inr [(1, 3, 3)]
   \<and> item_idx (1, 3, 3 :: int) \<notin> set [1, 2]"
  by (simp add: wrapper_defs example_defs)

section \<open>Seen items\<close>

lemma finite_eligible: "finite (eligible known row flt fi)"
  by (simp add: eligible_def)

lemma predict_total:
  assumes "never_fails M" and "0 < k" and "to_csr log = Inr mat"
    and "\<forall>u \<in> set users. \<exists>row. csr_getitem mat u = Inr row"
  shows "\<exists>rows. ImplicitWrap_predict M w log k users items flt = Inr rows"
proof -
  let ?f = "predict_by_user M (model w) mat k flt (items_to_drop log items)"
  have "\<forall>g \<in> set (remdups users). \<exists>r. ?f g = Inr r"
  proof
    fix g assume "g \<in> set (remdups users)"
    with assms(4) obtain row where row: "csr_getitem mat g = Inr row" by auto
    from assms(1,2) obtain ids rel where
      "recommend M (model w) g row k flt (items_to_drop log items) = Inr (ids, rel)"
      "length ids = length rel"
      unfolding never_fails_def by blast
    with row show "\<exists>r. ?f g = Inr r" by (simp add: predict_by_user_def pd_DataFrame_def)
  qed
  from applyInPandas_total[OF this] assms(3) show ?thesis
    by (simp add: ImplicitWrap_predict_def)
qed

text \<open>
  C3, as amended: with \<open>filter_seen_items = True\<close> and a Factor Model that returns
  distinct items among those it may return for the call (the items it knows, without
  \<open>items_to_drop\<close> and without the items that are nonzero in the row it is given), no
  returned row is a nonzero entry of its user's row of the log; a user for whom fewer
  than \<open>k\<close> such items are left gets fewer than \<open>k\<close> rows; and the call returns when the
  matrix of the log can be built, \<open>k > 0\<close>, every requested user is a row of the matrix
  and the model answers every such request.
\<close>

theorem seen_items_filtered:
  assumes "ranks_eligible M K"
  shows "(\<forall>rows. ImplicitWrap_predict M w log k users items True = Inr rows \<longrightarrow>
            (\<forall>x \<in> set rows. entry log (user_idx x) (item_idx x) = 0)
          \<and> (\<forall>u \<in> set users. \<exists>row. csr_getitem (csr_of log) u = Inr row
                \<and> (int (card (eligible (K (model w)) row True (items_to_drop log items))) < k
                     \<longrightarrow> int (length (filter (\<lambda>x. user_idx x = u) rows)) < k)))
       \<and> (never_fails M \<and> 0 < k \<and> to_csr log = Inr (csr_of log)
            \<and> (\<forall>u \<in> set users. \<exists>row. csr_getitem (csr_of log) u = Inr row) \<longrightarrow>
            (\<exists>rows. ImplicitWrap_predict M w log k users items True = Inr rows))"
proof (intro conjI allI impI ballI)
  fix rows x
  assume p: "ImplicitWrap_predict M w log k users items True = Inr rows" and x: "x \<in> set rows"
  let ?u = "user_idx x"
  from predict_row_call[OF p x] obtain row ids rel where
    look: "csr_getitem (csr_of log) ?u = Inr row"
    and call: "recommend M (model w) ?u row k True (items_to_drop log items) = Inr (ids, rel)"
    and mem: "item_idx x \<in> set ids" by blast
  from assms call have
    "set ids \<subseteq> eligible (K (model w)) row True (items_to_drop log items)"
    unfolding ranks_eligible_def by blast
  with mem have z: "row (item_idx x) = 0" by (auto simp: eligible_def)
  show "entry log ?u (item_idx x) = 0"
  proof (cases "0 \<le> ?u")
    case True
    with look z show ?thesis by (auto dest: csr_getitem_nonneg)
  next
    case False
    with predict_blocks(1)[OF p] show ?thesis by (auto intro: entry_negative_user)
  qed
next
  fix rows u
  assume p: "ImplicitWrap_predict M w log k users items True = Inr rows" and u: "u \<in> set users"
  from block_call[OF p u] obtain row ids rel where
    look: "csr_getitem (csr_of log) u = Inr row"
    and call: "recommend M (model w) u row k True (items_to_drop log items) = Inr (ids, rel)"
    and len: "length (filter (\<lambda>x. user_idx x = u) rows) = length ids" by blast
  let ?E = "eligible (K (model w)) row True (items_to_drop log items)"
  from assms call have d: "distinct ids" and sub: "set ids \<subseteq> ?E"
    unfolding ranks_eligible_def by blast+
  from d have "length ids = card (set ids)" by (simp add: distinct_card)
  also from sub have "\<dots> \<le> card ?E" by (intro card_mono finite_eligible)
  finally have "int (card ?E) < k \<longrightarrow> int (length (filter (\<lambda>x. user_idx x = u) rows)) < k"
    using len by simp
  with look show "\<exists>row. csr_getitem (csr_of log) u = Inr row
                \<and> (int (card (eligible (K (model w)) row True (items_to_drop log items))) < k
                     \<longrightarrow> int (length (filter (\<lambda>x. user_idx x = u) rows)) < k)"
    by blast
next
  assume "never_fails M \<and> 0 < k \<and> to_csr log = Inr (csr_of log)
            \<and> (\<forall>u \<in> set users. \<exists>row. csr_getitem (csr_of log) u = Inr row)"
  then show "\<exists>rows. ImplicitWrap_predict M w log k users items True = Inr rows"
    using predict_total by blast
qed

lemma example_predict_short:
  "ImplicitWrap_predict table_model example_wrap example_log 2 [1] [1, 2, 3] True = Inr [(1, 3, 3)]"
  by (simp add: wrapper_defs example_defs)

lemma example_row_1: "csr_getitem (csr_of example_log) 1 = Inr (entry example_log 1)"
  by (simp add: csr_getitem_def csr_of_def max_idx_def example_log_def user_idx_def)

lemma example_eligible:
  "eligible (fst (model example_wrap)) (entry example_log 1) True (items_to_drop example_log [1, 2, 3]) = {3}"
  by (auto simp: eligible_def wrapper_defs example_defs)

lemma example_to_csr: "to_csr example_log = Inr (csr_of example_log)"
  by (simp add: to_csr_def example_log_def user_idx_def item_idx_def)

theorem seen_items_filtered_witness:
  "ranks_eligible table_model fst \<and> never_fails table_model \<and> (0::int) < 2
   \<and> to_csr example_log = Inr (csr_of example_log)
   \<and> csr_getitem (csr_of example_log) 1 = Inr (entry example_log 1)
   \<and> ImplicitWrap_predict table_model example_wrap example_log 2 [1] [1, 2, 3] True = Inr [(1, 3, 3)]
   \<and> entry example_log 1 3 = 0
   \<and> int (card (eligible (fst (model example_wrap)) (entry example_log 1) True
                  (items_to_drop example_log [1, 2, 3]))) < 2
   \<and> int (length (filter (\<lambda>x. user_idx x = 1) [(1, 3, 3 :: int)])) < 2"
proof -
  note th = seen_items_filtered[OF table_ranks_eligible, of example_wrap example_log 2 "[1]" "[1, 2, 3]"]
  from th example_predict_short have
    a: "\<forall>x \<in> set [(1, 3, 3 :: int)]. entry example_log (user_idx x) (item_idx x) = 0"
    and b: "\<exists>row. csr_getitem (csr_of example_log) 1 = Inr row
            \<and> (int (card (eligible (fst (model example_wrap)) row True
                  (items_to_drop example_log [1, 2, 3]))) < 2
            \<longrightarrow> int (length (filter (\<lambda>x. user_idx x = 1) [(1, 3, 3 :: int)])) < 2)"
    by auto
  from a have "entry example_log 1 3 = 0" by (simp add: user_idx_def item_idx_def)
  moreover have c: "int (card (eligible (fst (model example_wrap)) (entry example_log 1) True
                  (items_to_drop example_log [1, 2, 3]))) < 2"
    by (simp add: example_eligible)
  moreover from b c have "int (length (filter (\<lambda>x. user_idx x = 1) [(1, 3, 3 :: int)])) < 2"
    by (simp add: example_row_1)
  ultimately show ?thesis
    using table_ranks_eligible table_never_fails example_predict_short example_to_csr example_row_1
    by simp
qed

text \<open>
  C3, as stated, fails: the model knows items 1, 2, 3 and honours both exclusions; the
  log is the one interaction of user 1 with item 1, the candidates are 1 and 2, and
  \<open>k = 2\<close>. Of the candidates only item 2 is unseen by user 1, fewer than \<open>k\<close>; user 1 still
  gets \<open>k\<close> rows, items 3 and 2, since only \<open>items_to_drop\<close> reaches the model.
\<close>

theorem eligible_shortage_counterexample:
  "ImplicitWrap_predict table_model example_wrap [(1, 1, 1)] 2 [1] [1, 2] True
     = Inr [(1, 3, 3), (1, 2, 2)]
   \<and> filter (\<lambda>i. entry [(1, 1, 1 :: int)] 1 i = 0) [1, 2] = [2]
   \<and> int (length [2 :: int]) < 2
   \<and> \<not> int (length (filter (\<lambda>x. user_idx x = 1) [(1, 3, 3), (1, 2, 2 :: int)])) < 2"
  by (simp add: wrapper_defs example_defs)

section \<open>Users without interactions\<close>

text \<open>
  C4, as amended: a requested user without interactions in the log, whose id is not
  negative and not above the largest user id of the log, is a row of the matrix: the
  lookup answers the all-zero row and does not fail. That user's rows are what the
  Factor Model returns for the all-zero row, \<open>k\<close>, the flag and \<open>items_to_drop\<close>. With a
  model that honours \<open>filter_items\<close>, those of the user's items that appear in the log
  are candidates. With a model that returns fewer than \<open>N\<close> items only when it has
  returned all it may, a user with fewer than \<open>k\<close> rows has every candidate the model
  knows among them, whatever \<open>filter_seen_items\<close> is: nothing is excluded as seen.
\<close>

theorem absent_user_zero_row:
  assumes "to_csr log = Inr mat" and "u \<notin> user_idx ` set log"
    and "0 \<le> u" and "u \<le> max_idx (map user_idx log)"
  shows "csr_getitem mat u = Inr (\<lambda>i. 0)
       \<and> (\<forall>rows. ImplicitWrap_predict M w log k users items flt = Inr rows \<and> u \<in> set users \<longrightarrow>
            (\<exists>ids rel. recommend M (model w) u (\<lambda>i. 0) k flt (items_to_drop log items) = Inr (ids, rel)
               \<and> filter (\<lambda>x. user_idx x = u) rows = zip (replicate (length ids) u) (zip ids rel))
          \<and> (honours_filter_items M \<longrightarrow>
               (\<forall>x \<in> set (filter (\<lambda>x. user_idx x = u) rows).
                  item_idx x \<in> item_idx ` set log \<longrightarrow> item_idx x \<in> set items))
          \<and> (exhausts_eligible M K \<and> int (length (filter (\<lambda>x. user_idx x = u) rows)) < k \<longrightarrow>
               (\<forall>i \<in> set items \<inter> set (K (model w)).
                  i \<in> item_idx ` set (filter (\<lambda>x. user_idx x = u) rows))))"
proof -
  have z: "entry log u = (\<lambda>i. 0)"
    using entry_absent_user[OF assms(2)] by (intro ext)
  from to_csr_Inr[OF assms(1)] have mat: "mat = csr_of log" by simp
  have look: "csr_getitem mat u = Inr (\<lambda>i. 0)"
    unfolding mat using csr_getitem_in_range[OF assms(3,4)] z by simp
  have rest: "(\<exists>ids rel. recommend M (model w) u (\<lambda>i. 0) k flt (items_to_drop log items) = Inr (ids, rel)
               \<and> filter (\<lambda>x. user_idx x = u) rows = zip (replicate (length ids) u) (zip ids rel))
          \<and> (honours_filter_items M \<longrightarrow>
               (\<forall>x \<in> set (filter (\<lambda>x. user_idx x = u) rows).
                  item_idx x \<in> item_idx ` set log \<longrightarrow> item_idx x \<in> set items))
          \<and> (exhausts_eligible M K \<and> int (length (filter (\<lambda>x. user_idx x = u) rows)) < k \<longrightarrow>
               (\<forall>i \<in> set items \<inter> set (K (model w)).
                  i \<in> item_idx ` set (filter (\<lambda>x. user_idx x = u) rows)))"
    if p: "ImplicitWrap_predict M w log k users items flt = Inr rows" and u: "u \<in> set users" for rows
  proof -
    let ?blk = "filter (\<lambda>x. user_idx x = u) rows"
    from block_call[OF p u] obtain row ids rel where
      r: "csr_getitem (csr_of log) u = Inr row"
      and call0: "recommend M (model w) u row k flt (items_to_drop log items) = Inr (ids, rel)"
      and blk: "?blk = zip (replicate (length ids) u) (zip ids rel)"
      and len: "length ?blk = length ids"
      and its: "item_idx ` set ?blk = set ids" by blast
    from r look[unfolded mat] have "row = (\<lambda>i. 0)" by simp
    with call0 have
      call: "recommend M (model w) u (\<lambda>i. 0) k flt (items_to_drop log items) = Inr (ids, rel)"
      by simp
    have a: "item_idx x \<in> set items"
      if "honours_filter_items M" and "x \<in> set ?blk" and "item_idx x \<in> item_idx ` set log" for x
    proof -
      from that(1) call have "set ids \<inter> set (items_to_drop log items) = {}"
        unfolding honours_filter_items_def by blast
      moreover from that(2) its have "item_idx x \<in> set ids" by blast
      ultimately have "item_idx x \<notin> set (items_to_drop log items)" by blast
      with that(3) show ?thesis by (simp add: items_to_drop_set)
    qed
    have b: "i \<in> item_idx ` set ?blk"
      if "exhausts_eligible M K" and "int (length ?blk) < k" and "i \<in> set items"
        and "i \<in> set (K (model w))" for i
    proof -
      from that(2) len have short: "int (length ids) < k" by simp
      note sub = that(1)[unfolded exhausts_eligible_def, rule_format, OF call short]
      from that(3) have "i \<notin> set (items_to_drop log items)"
        by (simp add: items_to_drop_def)
      with sub have "i \<in> set ids" using that(4) by (auto simp: eligible_def)
      with its show ?thesis by simp
    qed
    from call blk a b show ?thesis by blast
  qed
  from look rest show ?thesis by blast
qed

lemma example_predict_new_user_short:
  "ImplicitWrap_predict table_model example_wrap example_log 3 [0] [1, 2] True
     = Inr [(0, 2, 2), (0, 1, 1)]"
  by (simp add: wrapper_defs example_defs)

theorem absent_user_zero_row_witness:
  "to_csr example_log = Inr (csr_of example_log)
   \<and> 0 \<notin> user_idx ` set example_log \<and> (0::int) \<le> 0 \<and> 0 \<le> max_idx (map user_idx example_log)
   \<and> honours_filter_items table_model \<and> exhausts_eligible table_model fst
   \<and> csr_getitem (csr_of example_log) 0 = Inr (\<lambda>i. 0)
   \<and> ImplicitWrap_predict table_model example_wrap example_log 3 [0] [1, 2] True
       = Inr [(0, 2, 2), (0, 1, 1)]
   \<and> items_to_drop example_log [1, 2] = [3]
   \<and> item_idx (0, 2, 2 :: int) \<in> set [1, 2]
   \<and> 1 \<in> item_idx ` set (filter (\<lambda>x. user_idx x = 0) [(0, 2, 2), (0, 1, 1 :: int)])"
proof -
  have a: "0 \<notin> user_idx ` set example_log"
    by (simp add: example_log_def user_idx_def)
  have b: "(0::int) \<le> 0" by simp
  have c: "0 \<le> max_idx (map user_idx example_log)" by (rule max_idx_nonneg)
  have d: "items_to_drop example_log [1, 2] = [3]"
    by (simp add: items_to_drop_def example_log_def item_idx_def)
  note th = absent_user_zero_row[OF example_to_csr a b c, where M = table_model and w = example_wrap
      and k = 3 and users = "[0]" and items = "[1, 2]" and flt = True and K = fst]
  from th have look: "csr_getitem (csr_of example_log) 0 = Inr (\<lambda>i. 0)"
    by (rule conjunct1)
  have u: "(0::int) \<in> set [0]" by simp
  note blk = conjunct2[OF th, rule_format, OF conjI[OF example_predict_new_user_short u]]
  have sel: "filter (\<lambda>x. user_idx x = 0) [(0, 2, 2), (0, 1, 1 :: int)] = [(0, 2, 2), (0, 1, 1)]"
    by (simp add: user_idx_def)
  from blk table_honours_filter_items have
    "\<forall>x \<in> set (filter (\<lambda>x. user_idx x = 0) [(0, 2, 2), (0, 1, 1 :: int)]).
       item_idx x \<in> item_idx ` set example_log \<longrightarrow> item_idx x \<in> set [1, 2]"
    by blast
  then have "item_idx (0, 2, 2 :: int) \<in> item_idx ` set example_log
               \<longrightarrow> item_idx (0, 2, 2 :: int) \<in> set [1, 2]"
    unfolding sel by simp
  moreover have "item_idx (0, 2, 2 :: int) \<in> item_idx ` set example_log"
    by (simp add: item_idx_def example_log_def)
  ultimately have e: "item_idx (0, 2, 2 :: int) \<in> set [1, 2]" by blast
  have short: "int (length (filter (\<lambda>x. user_idx x = 0) [(0, 2, 2), (0, 1, 1 :: int)])) < 3"
    unfolding sel by simp
  have one: "(1::int) \<in> set [1, 2] \<inter> set (fst (model example_wrap))"
    by (simp add: example_wrap_def ImplicitWrap_init_def)
  from blk table_exhausts_eligible short have
    "\<forall>i \<in> set [1, 2] \<inter> set (fst (model example_wrap)).
        i \<in> item_idx ` set (filter (\<lambda>x. user_idx x = 0) [(0, 2, 2), (0, 1, 1 :: int)])"
    by blast
  with one have f: "1 \<in> item_idx ` set (filter (\<lambda>x. user_idx x = 0) [(0, 2, 2), (0, 1, 1 :: int)])"
    by blast
  from look e f a b c d example_to_csr example_predict_new_user_short
    table_honours_filter_items table_exhausts_eligible
  show ?thesis by blast
qed

text \<open>
  C4, as stated, fails. User 7 has no interactions in the log of the docstring, whose
  matrix has the rows 0, 1, 2: the lookup raises \<open>IndexError\<close>. User 0 has no
  interactions in the log of one interaction of user 1 with item 1 and is a row of its
  matrix: with candidates 1 and 2 the user is recommended item 3, which is no candidate.
\<close>

theorem absent_user_counterexample:
  "7 \<notin> user_idx ` set example_log
   \<and> ImplicitWrap_predict table_model example_wrap example_log 2 [7] [1, 2, 3] True = Inl IndexError
   \<and> 0 \<notin> user_idx ` set [(1, 1, 1 :: int)]
   \<and> ImplicitWrap_predict table_model example_wrap [(1, 1, 1)] 1 [0] [1, 2] True = Inr [(0, 3, 3)]
   \<and> item_idx (0, 3, 3 :: int) \<notin> set [1, 2]"
  by (simp add: wrapper_defs example_defs)

section \<open>Number of rows per user\<close>

text \<open>
  C5, as amended: for \<open>k > 0\<close> and a Factor Model that returns at most \<open>N\<close> items, and
  fewer than \<open>N\<close> only when it has returned every item it may return, each requested
  user gets at most \<open>k\<close> rows; when a user gets fewer than \<open>k\<close>, every candidate item
  that the model knows (and that is unseen, when filtering) is among that user's rows.
  Unseen means zero in the row that the lookup gives for the user, which is the user's
  own row of the log for every id that is not negative.
\<close>

theorem at_most_k_rows:
  assumes "at_most_N M" and "exhausts_eligible M K" and "0 < k"
    and "ImplicitWrap_predict M w log k users items flt = Inr rows" and "u \<in> set users"
  shows "\<exists>row. csr_getitem (csr_of log) u = Inr row
       \<and> (0 \<le> u \<longrightarrow> row = entry log u)
       \<and> int (length (filter (\<lambda>x. user_idx x = u) rows)) \<le> k
       \<and> (int (length (filter (\<lambda>x. user_idx x = u) rows)) < k \<longrightarrow>
            (\<forall>i \<in> set items \<inter> set (K (model w)). (flt \<longrightarrow> row i = 0) \<longrightarrow>
               i \<in> item_idx ` set (filter (\<lambda>x. user_idx x = u) rows)))"
proof -
  let ?blk = "filter (\<lambda>x. user_idx x = u) rows"
  from block_call[OF assms(4,5)] obtain row ids rel where
    look: "csr_getitem (csr_of log) u = Inr row"
    and call: "recommend M (model w) u row k flt (items_to_drop log items) = Inr (ids, rel)"
    and len: "length ?blk = length ids"
    and its: "item_idx ` set ?blk = set ids" by blast
  from assms(1,3) call have le: "int (length ids) \<le> k"
    unfolding at_most_N_def by blast
  have ex: "i \<in> set ids"
    if "int (length ids) < k" and "i \<in> set items" and "i \<in> set (K (model w))"
      and "flt \<longrightarrow> row i = 0" for i
  proof -
    from assms(2) call that(1) have
      "eligible (K (model w)) row flt (items_to_drop log items) \<subseteq> set ids"
      unfolding exhausts_eligible_def by blast
    moreover from that(2) have "i \<notin> set (items_to_drop log items)"
      by (simp add: items_to_drop_def)
    ultimately show ?thesis using that(3,4) by (auto simp: eligible_def)
  qed
  have own: "0 \<le> u \<longrightarrow> row = entry log u"
    using look by (auto dest: csr_getitem_nonneg)
  from look own le ex show ?thesis unfolding len its by blast
qed

lemma example_predict_exhausted:
  "ImplicitWrap_predict table_model example_wrap [(1, 1, 1)] 5 [1] [1, 2, 3, 4] False
     = Inr [(1, 3, 3), (1, 2, 2), (1, 1, 1)]"
  by (simp add: wrapper_defs example_defs)

theorem at_most_k_rows_witness:
  "at_most_N table_model \<and> exhausts_eligible table_model fst \<and> (0::int) < 5
   \<and> ImplicitWrap_predict table_model example_wrap [(1, 1, 1)] 5 [1] [1, 2, 3, 4] False
       = Inr [(1, 3, 3), (1, 2, 2), (1, 1, 1)]
   \<and> (1::int) \<in> set [1]
   \<and> int (length (filter (\<lambda>x. user_idx x = 1) [(1, 3, 3), (1, 2, 2), (1, 1, 1 :: int)])) \<le> 5
   \<and> 1 \<in> item_idx ` set (filter (\<lambda>x. user_idx x = 1) [(1, 3, 3), (1, 2, 2), (1, 1, 1 :: int)])"
proof -
  have k: "(0::int) < 5" and u: "(1::int) \<in> set [1]" by simp_all
  show ?thesis
    using at_most_k_rows[OF table_at_most_N table_exhausts_eligible k example_predict_exhausted u]
      table_at_most_N table_exhausts_eligible example_predict_exhausted
    by (simp add: user_idx_def item_idx_def)
qed

text \<open>
  C5, as stated, fails: the model knows items 1, 2, 3; the candidates are 1, 2, 3, 4 and
  \<open>k = 5\<close>, without filtering of seen items. User 1 gets three rows, fewer than \<open>k\<close>,
  while candidate 4, which user 1 has not seen, is not among them.
\<close>

theorem eligible_exhausted_counterexample:
  "ImplicitWrap_predict table_model example_wrap [(1, 1, 1)] 5 [1] [1, 2, 3, 4] False
     = Inr [(1, 3, 3), (1, 2, 2), (1, 1, 1)]
   \<and> int (length (filter (\<lambda>x. user_idx x = 1) [(1, 3, 3), (1, 2, 2), (1, 1, 1 :: int)])) < 5
   \<and> 4 \<in> set [1, 2, 3, 4 :: int]
   \<and> entry [(1, 1, 1 :: int)] 1 4 = 0
   \<and> 4 \<notin> item_idx ` set [(1, 3, 3), (1, 2, 2), (1, 1, 1 :: int)]"
  by (simp add: wrapper_defs example_defs)

section \<open>Non-positive \<open>k\<close>\<close>

lemma applyInPandas_all_fail:
  assumes "gs \<noteq> []" and "\<forall>g \<in> set gs. \<exists>e. f g = Inl e"
  shows "\<exists>e. applyInPandas f gs = Inl e \<and> (\<exists>g \<in> set gs. f g = Inl e)"
  using assms by (cases gs) auto

text \<open>
  C6, as amended: \<open>_predict\<close> does not check \<open>k\<close>; it hands \<open>k\<close> to the Factor Model.
  When the Factor Model rejects a non-positive \<open>N\<close> and at least one user is requested,
  the call with \<open>k \<le> 0\<close> fails without rows: with the error of the matrix builder, with
  the \<open>IndexError\<close> of the lookup of a requested user, or with the error the model
  raised for one of the requested users.
\<close>

theorem nonpositive_k_rejected_by_model:
  assumes "rejects_nonpositive M" and "k \<le> 0" and "users \<noteq> []"
  shows "\<exists>e. ImplicitWrap_predict M w log k users items flt = Inl e
            \<and> (to_csr log = Inl e
               \<or> (\<exists>u \<in> set users. csr_getitem (csr_of log) u = Inl e)
               \<or> (\<exists>u \<in> set users. \<exists>row. csr_getitem (csr_of log) u = Inr row
                     \<and> recommend M (model w) u row k flt (items_to_drop log items) = Inl e))"
proof (cases "to_csr log")
  case (Inl e)
  then show ?thesis by (simp add: ImplicitWrap_predict_def)
next
  case (Inr mat)
  then have mat: "mat = csr_of log" by (simp add: to_csr_Inr)
  let ?f = "predict_by_user M (model w) (csr_of log) k flt (items_to_drop log items)"
  have fail: "\<exists>e. ?f g = Inl e
                \<and> (csr_getitem (csr_of log) g = Inl e
                   \<or> (\<exists>row. csr_getitem (csr_of log) g = Inr row
                        \<and> recommend M (model w) g row k flt (items_to_drop log items) = Inl e))" for g
  proof (cases "csr_getitem (csr_of log) g")
    case (Inl e)
    then show ?thesis by (simp add: predict_by_user_def)
  next
    case (Inr row)
    from assms(1,2) obtain e where
      "recommend M (model w) g row k flt (items_to_drop log items) = Inl e"
      unfolding rejects_nonpositive_def by blast
    with Inr show ?thesis by (simp add: predict_by_user_def)
  qed
  from assms(3) have ne: "remdups users \<noteq> []" by (cases users) auto
  from fail have "\<forall>g \<in> set (remdups users). \<exists>e. ?f g = Inl e" by blast
  from applyInPandas_all_fail[OF ne this] obtain e g where
    e: "applyInPandas ?f (remdups users) = Inl e" and g: "g \<in> set users" "?f g = Inl e" by auto
  from fail[of g] g(2) have
    "csr_getitem (csr_of log) g = Inl e
       \<or> (\<exists>row. csr_getitem (csr_of log) g = Inr row
            \<and> recommend M (model w) g row k flt (items_to_drop log items) = Inl e)"
    by auto
  with g(1) have "(\<exists>u \<in> set users. csr_getitem (csr_of log) u = Inl e)
               \<or> (\<exists>u \<in> set users. \<exists>row. csr_getitem (csr_of log) u = Inr row
                     \<and> recommend M (model w) u row k flt (items_to_drop log items) = Inl e)"
    by blast
  moreover from e Inr mat have "ImplicitWrap_predict M w log k users items flt = Inl e"
    by (simp add: ImplicitWrap_predict_def)
  ultimately show ?thesis by blast
qed

lemma example_strict:
  "ImplicitWrap_predict strict_model example_wrap example_log 0 [1] [1, 2, 3] True
     = Inl (ModelError ''N must be positive'')"
  by (simp add: wrapper_defs example_defs)

theorem nonpositive_k_rejected_by_model_witness:
  "rejects_nonpositive strict_model \<and> (0::int) \<le> 0 \<and> [1::int] \<noteq> []
   \<and> (\<exists>e. ImplicitWrap_predict strict_model example_wrap example_log 0 [1] [1, 2, 3] True = Inl e)
   \<and> ImplicitWrap_predict strict_model example_wrap example_log 0 [1] [1, 2, 3] True
       = Inl (ModelError ''N must be positive'')"
proof -
  have k: "(0::int) \<le> 0" and u: "[1::int] \<noteq> []" by simp_all
  show ?thesis
    using nonpositive_k_rejected_by_model[OF strict_rejects_nonpositive k u,
        of example_wrap example_log "[1, 2, 3]" True]
      strict_rejects_nonpositive example_strict
    by simp
qed

text \<open>
  C6, as stated, fails: with a model object that answers a request for no items by empty
  arrays, the call with \<open>k = 0\<close> (and with \<open>k = -1\<close>) returns the empty relation.
\<close>

theorem invalid_k_counterexample:
  "ImplicitWrap_predict table_model example_wrap example_log 0 [1] [1, 2, 3] True = Inr []
   \<and> ImplicitWrap_predict table_model example_wrap example_log (- 1) [1] [1, 2, 3] True = Inr []"
  by (simp add: wrapper_defs example_defs)

section \<open>The cached matrix\<close>

lemma deref_append: "p < length h \<Longrightarrow> deref (h @ [m]) p = deref h p"
  by (simp add: deref_def nth_append)

lemma deref_new: "deref (h @ [m]) (length h) = Some m"
  by (simp add: deref_def)

lemma fit_failed_build: "to_csr log = Inl e \<Longrightarrow> ImplicitWrap_fit M log s = (Some e, s)"
  by (cases s) (simp add: ImplicitWrap_fit_def)

lemma fit_state:
  assumes "ImplicitWrap_fit M log (h, w) = (r, h', w')" and "to_csr log = Inr matrix"
  shows "h' = h @ [matrix]" and "csr_log w' = Some (length h)"
  using assms
  by (auto simp: ImplicitWrap_fit_def Let_def split: sum.splits)

text \<open>
  C7: a fit that gets past the matrix builder stores the new matrix as a new object and
  points \<open>csr_log\<close> at it; every matrix object that existed before, the previously
  cached one among them, is left as it was (also when \<open>model.fit\<close> then raises).
  Afterwards \<open>_predict_pairs\<close> without a log scores against the cached matrix of that
  fit; with a log it scores against the matrix built from that log, whatever is cached;
  and a \<open>_predict_pairs\<close> call leaves the store and the wrapper as they were.
\<close>

theorem fit_replaces_cached_matrix:
  assumes "ImplicitWrap_fit M log (h, w) = (r, h', w')" and "to_csr log = Inr matrix"
  shows "h' = h @ [matrix] \<and> csr_log w' = Some (length h)
       \<and> deref h' (length h) = Some matrix
       \<and> (\<forall>p < length h. deref h' p = deref h p)
       \<and> ImplicitWrap_predict_pairs M (h', w') pairs None = score_grid M (model w') matrix pairs
       \<and> ImplicitWrap_predict_pairs M (h', w') pairs (Some log') =
           (case to_csr log' of Inl e \<Rightarrow> Inl e | Inr matrix' \<Rightarrow> score_grid M (model w') matrix' pairs)
       \<and> snd (run M (PredictPairs pairs lg) (h', w')) = (h', w')"
proof -
  note st = fit_state[OF assms]
  have "ImplicitWrap_predict_pairs M (h', w') pairs None = score_grid M (model w') matrix pairs"
    by (simp add: ImplicitWrap_predict_pairs_def st deref_new)
  moreover have "ImplicitWrap_predict_pairs M (h', w') pairs (Some log') =
           (case to_csr log' of Inl e \<Rightarrow> Inl e | Inr matrix' \<Rightarrow> score_grid M (model w') matrix' pairs)"
    by (simp add: ImplicitWrap_predict_pairs_def split: sum.splits)
  ultimately show ?thesis
    using st by (simp add: deref_new deref_append)
qed

lemma example_fit:
  "ImplicitWrap_fit table_model example_log ([], example_wrap)
     = (None, [csr_of example_log], \<lparr>model = ([1, 2, 3], \<lambda>u i. i), csr_log = Some 0\<rparr>)"
  by (simp add: ImplicitWrap_fit_def example_to_csr example_wrap_def ImplicitWrap_init_def table_model_def)

theorem fit_replaces_cached_matrix_witness:
  "ImplicitWrap_fit table_model example_log ([], example_wrap)
     = (None, [csr_of example_log], \<lparr>model = ([1, 2, 3], \<lambda>u i. i), csr_log = Some 0\<rparr>)
   \<and> to_csr example_log = Inr (csr_of example_log)
   \<and> deref [csr_of example_log] 0 = Some (csr_of example_log)
   \<and> ImplicitWrap_predict_pairs table_model
        ([csr_of example_log], \<lparr>model = ([1, 2, 3], \<lambda>u i. i), csr_log = Some 0\<rparr>) [(1, 1)] None
       = score_grid table_model ([1, 2, 3], \<lambda>u i. i) (csr_of example_log) [(1, 1)]"
  using fit_replaces_cached_matrix[OF example_fit example_to_csr, of "[(1, 1)]"] example_fit
    example_to_csr
  by simp

section \<open>Repeated prediction\<close>

text \<open>
  C8: a \<open>_predict\<close> call leaves the wrapper and the store as they were, and its outcome
  depends on the state only through the wrapped model; so a second call with the same
  fitted model and the same arguments gives the same outcome, rows and relevance values
  included (the model's \<open>recommend\<close> being a function of the model and its arguments).
\<close>

theorem predict_repeatable:
  assumes "model (snd s') = model (snd s)"
  shows "snd (run M (Predict log k users items flt) s) = s
       \<and> fst (run M (Predict log k users items flt) s') = fst (run M (Predict log k users items flt) s)
       \<and> run M (Predict log k users items flt) (snd (run M (Predict log k users items flt) s))
           = run M (Predict log k users items flt) s"
  using assms by (simp add: ImplicitWrap_predict_def split: sum.splits)

theorem predict_repeatable_witness:
  "model (snd ([csr_of example_log], example_wrap\<lparr>csr_log := Some 0\<rparr>)) = model (snd ([], example_wrap))
   \<and> fst (run table_model (Predict example_log 1 [1] [1, 2, 3] True)
            ([csr_of example_log], example_wrap\<lparr>csr_log := Some 0\<rparr>))
       = fst (run table_model (Predict example_log 1 [1] [1, 2, 3] True) ([], example_wrap))
   \<and> fst (run table_model (Predict example_log 1 [1] [1, 2, 3] True) ([], example_wrap))
       = Returned [(1, 3, 3)]"
proof -
  have m: "model (snd ([csr_of example_log], example_wrap\<lparr>csr_log := Some 0\<rparr>))
             = model (snd ([]::int store, example_wrap))"
    by simp
  show ?thesis
    using predict_repeatable[OF m, of table_model example_log 1 "[1]" "[1, 2, 3]" True] example_predict
    by (simp add: outcome_of_def)
qed

section \<open>Attribution of rows to users\<close>

text \<open>
  C9: every row that \<open>_predict\<close> returns carries the id of a requested user, and the rows
  of one requested user are exactly the columns built in \<open>predict_by_user\<close> for that
  user: the item and relevance arrays that the model returned for the row looked up
  for this user (the user's own row of the log, for an id that is not negative), of
  equal length, each pair next to this user's id.
\<close>

theorem predict_rows_attributed:
  assumes "ImplicitWrap_predict M w log k users items flt = Inr rows"
  shows "(\<forall>x \<in> set rows. user_idx x \<in> set users)
       \<and> (\<forall>u \<in> set users. \<exists>row ids rel.
             csr_getitem (csr_of log) u = Inr row
           \<and> (0 \<le> u \<longrightarrow> row = entry log u)
           \<and> recommend M (model w) u row k flt (items_to_drop log items) = Inr (ids, rel)
           \<and> length ids = length rel
           \<and> filter (\<lambda>x. user_idx x = u) rows = zip (replicate (length ids) u) (zip ids rel))"
proof (intro conjI ballI)
  fix x assume "x \<in> set rows"
  with assms show "user_idx x \<in> set users" by (rule predict_rows_users)
next
  fix u assume u: "u \<in> set users"
  from block_call[OF assms u] obtain row ids rel where
    look: "csr_getitem (csr_of log) u = Inr row"
    and rest: "recommend M (model w) u row k flt (items_to_drop log items) = Inr (ids, rel)"
      "length ids = length rel"
      "filter (\<lambda>x. user_idx x = u) rows = zip (replicate (length ids) u) (zip ids rel)"
    by blast
  from look have "0 \<le> u \<longrightarrow> row = entry log u" by (auto dest: csr_getitem_nonneg)
  with look rest show "\<exists>row ids rel.
             csr_getitem (csr_of log) u = Inr row
           \<and> (0 \<le> u \<longrightarrow> row = entry log u)
           \<and> recommend M (model w) u row k flt (items_to_drop log items) = Inr (ids, rel)
           \<and> length ids = length rel
           \<and> filter (\<lambda>x. user_idx x = u) rows = zip (replicate (length ids) u) (zip ids rel)"
    by blast
qed

theorem predict_rows_attributed_witness:
  "ImplicitWrap_predict table_model example_wrap example_log 1 [1] [1, 2, 3] True = Inr [(1, 3, 3)]
   \<and> user_idx (1, 3, 3 :: int) \<in> set [1]
   \<and> (\<exists>row ids rel.
         csr_getitem (csr_of example_log) 1 = Inr row
       \<and> recommend table_model (model example_wrap) 1 row 1 True
           (items_to_drop example_log [1, 2, 3]) = Inr (ids, rel)
       \<and> length ids = length rel
       \<and> filter (\<lambda>x. user_idx x = 1) [(1, 3, 3 :: int)] = zip (replicate (length ids) 1) (zip ids rel))"
proof -
  have u: "(1::int) \<in> set [1]" by simp
  from predict_rows_attributed[OF example_predict] u
  have "\<exists>row ids rel.
         csr_getitem (csr_of example_log) 1 = Inr row
       \<and> recommend table_model (model example_wrap) 1 row 1 True
           (items_to_drop example_log [1, 2, 3]) = Inr (ids, rel)
       \<and> length ids = length rel
       \<and> filter (\<lambda>x. user_idx x = 1) [(1, 3, 3 :: int)] = zip (replicate (length ids) 1) (zip ids rel)"
    by blast
  moreover have "user_idx (1, 3, 3 :: int) \<in> set [1]" by (simp add: user_idx_def)
  ultimately show ?thesis using example_predict by blast
qed

section \<open>Pairwise scoring without a fit\<close>

lemma csr_log_load: "csr_log (snd (ImplicitWrap_load_model loaded w)) = csr_log w"
  by (simp add: ImplicitWrap_load_model_def split: sum.splits)

lemma csr_log_loads:
  "csr_log (foldl (\<lambda>w l. snd (ImplicitWrap_load_model l w)) w loads) = csr_log w"
  by (induction loads arbitrary: w) (simp_all add: csr_log_load)

text \<open>
  C10: a freshly constructed wrapper has \<open>csr_log = None\<close>; \<open>_load_model\<close> replaces the
  wrapped model only and leaves \<open>csr_log\<close> as it was; so on an instance that was
  constructed and then restored by any number of loads, without a fit, \<open>_predict_pairs\<close>
  with the log omitted raises (\<open>TypeError\<close>, from subscripting \<open>None\<close>) for every model
  and every \<open>pairs\<close>, instead of returning scores.
\<close>

theorem predict_pairs_without_fit_fails:
  "csr_log (ImplicitWrap_init mdl) = None
   \<and> csr_log (snd (ImplicitWrap_load_model loaded w)) = csr_log w
   \<and> ImplicitWrap_predict_pairs M
        (h, foldl (\<lambda>w l. snd (ImplicitWrap_load_model l w)) (ImplicitWrap_init mdl) loads)
        pairs None = Inl TypeError"
proof -
  have "csr_log (foldl (\<lambda>w l. snd (ImplicitWrap_load_model l w)) (ImplicitWrap_init mdl) loads) = None"
    by (simp add: csr_log_loads ImplicitWrap_init_def)
  then show ?thesis
    by (simp add: ImplicitWrap_predict_pairs_def csr_log_load ImplicitWrap_init_def)
qed

end
